theory Spec2Isabelle
  imports Main "HOL-Library.Word" "HOL-Library.Multiset"
begin

section \<open>The union backend's tie-break policies: eplno and eplfs\<close>

text \<open>
  A shallow embedding of \<^verbatim>\<open>backend/union/policy/eplno.go\<close>, which holds the two
  policies \<^verbatim>\<open>EpLno\<close> (existing path, least number of objects) and \<^verbatim>\<open>EpLfs\<close>
  (existing path, least free space).

  Go's \<^verbatim>\<open>int64\<close> is a 64-bit word read as two's complement: every comparison of the
  source is the signed one (\<open><s\<close>). The source does no arithmetic on these values, it
  only compares them with each other and with \<^verbatim>\<open>math.MaxInt64\<close>.
\<close>

type_synonym int64 = "64 word"

definition MaxInt64 :: int64 where
  "MaxInt64 = 9223372036854775807"

text \<open>
  The error values the source names, and any other error a collaborator may hand back
  (a cancelled context, a backend outage, an unsupported usage field).
\<close>

datatype error =
    ErrorObjectNotFound
  | errNoUpstreamsFound
  | ErrorOther string

text \<open>
  What a call does besides returning: the calls it makes to its collaborators, in order.
  \<^verbatim>\<open>Call_Filter\<close> is a call of one of the embedded \<^verbatim>\<open>EpAll\<close> methods, the two queries
  carry the name of the upstream asked, and \<^verbatim>\<open>Call_LogPrintf\<close> carries the notice that
  \<^verbatim>\<open>fs.LogPrintf\<close> prints.
\<close>

datatype call =
    Call_Filter
  | Call_GetNumObjects string
  | Call_GetFreeSpace string
  | Call_LogPrintf string

subsection \<open>Upstreams, entries and the embedded base policy\<close>

text \<open>
  The type \<^verbatim>\<open>upstream.Fs\<close> is declared outside the two source files. The policies read
  four things of an upstream, and the record holds exactly these: its name, the pair
  \<^verbatim>\<open>GetNumObjects()\<close> returns, the pair \<^verbatim>\<open>GetFreeSpace()\<close> returns, and
  \<^verbatim>\<open>int64(u.Opt.MinFreeSpace)\<close>. The second component of a pair is Go's \<^verbatim>\<open>err\<close>
  (\<open>None\<close> is \<^verbatim>\<open>nil\<close>); the first is the value that comes with it, which the source
  uses whether or not \<^verbatim>\<open>err\<close> is \<^verbatim>\<open>nil\<close>.
\<close>

record upstream =
  Name :: string
  GetNumObjects :: "int64 \<times> error option"
  GetFreeSpace :: "int64 \<times> error option"
  MinFreeSpace :: int64

text \<open>An \<^verbatim>\<open>upstream.Entry\<close>: a listed object and the upstream it came from.\<close>

record entry =
  Remote :: string
  UpstreamFs :: upstream

text \<open>
  Both policies embed \<^verbatim>\<open>EpAll\<close>, whose methods are declared outside the two source
  files. They are taken as they are called: each returns a list and an \<^verbatim>\<open>err\<close>.
\<close>

record EpAll =
  EpAll_Action :: "upstream list \<Rightarrow> string \<Rightarrow> upstream list \<times> error option"
  EpAll_ActionEntries :: "entry list \<Rightarrow> entry list \<times> error option"
  EpAll_Create :: "upstream list \<Rightarrow> string \<Rightarrow> upstream list \<times> error option"
  EpAll_CreateEntries :: "entry list \<Rightarrow> entry list \<times> error option"
  epall :: "upstream list \<Rightarrow> string \<Rightarrow> upstream list \<times> error option"

subsection \<open>The shuffle\<close>

text \<open>
  \<^verbatim>\<open>rand.Shuffle(n, swap)\<close> of Go's standard library is the Fisher-Yates shuffle
  \<^verbatim>\<open>for i := n - 1; i > 0; i-- { j := int31n(i + 1); swap(i, j) }\<close>
  and the \<^verbatim>\<open>swap\<close> the policies pass exchanges the elements at \<open>i\<close> and \<open>j\<close>.
  The random source is the parameter \<open>rng\<close>: \<open>rng i\<close> is the number drawn at index
  \<open>i\<close>, brought into the range \<open>0..i\<close> that \<^verbatim>\<open>int31n(i + 1)\<close> guarantees.
  \<open>shuffle_loop rng i xs\<close> runs the iterations \<open>i, i - 1, ..., 1\<close>.
  The source shuffles the slice it was given in place; what the reductions return does
  not depend on what the caller sees of that slice afterwards, so the shuffled list is
  only handed to the loop that follows.
\<close>

definition swap :: "nat \<Rightarrow> nat \<Rightarrow> 'a list \<Rightarrow> 'a list" where
  "swap i j xs = xs[i := xs ! j, j := xs ! i]"

fun shuffle_loop :: "(nat \<Rightarrow> nat) \<Rightarrow> nat \<Rightarrow> 'a list \<Rightarrow> 'a list" where
  "shuffle_loop rng 0 xs = xs"
| "shuffle_loop rng (Suc i) xs =
     shuffle_loop rng i (swap (Suc i) (rng (Suc i) mod (Suc (Suc i))) xs)"

definition Shuffle :: "(nat \<Rightarrow> nat) \<Rightarrow> 'a list \<Rightarrow> 'a list" where
  "Shuffle rng xs = shuffle_loop rng (length xs - 1) xs"

subsection \<open>EpLno: least number of objects\<close>

text \<open>
  The \<^verbatim>\<open>for _, u := range upstreams\<close> loop of \<^verbatim>\<open>lno\<close>. Its state is
  \<^verbatim>\<open>minNumObj\<close>, \<^verbatim>\<open>lnoUpstream\<close> (\<open>None\<close> is \<^verbatim>\<open>nil\<close>) and the calls made so far.
\<close>

definition lno_notice :: "upstream \<Rightarrow> call" where
  "lno_notice u = Call_LogPrintf
     (''Number of Objects is not supported for upstream '' @ Name u @ '', treating as 0'')"

fun lno_loop ::
  "upstream list \<Rightarrow> int64 \<times> upstream option \<times> call list
     \<Rightarrow> int64 \<times> upstream option \<times> call list" where
  "lno_loop [] st = st"
| "lno_loop (u # us) (minNumObj, lnoUpstream, cs) =
     (case GetNumObjects u of (numObj, err) \<Rightarrow>
        let cs' = cs @ Call_GetNumObjects (Name u) # (if err \<noteq> None then [lno_notice u] else [])
        in if numObj <s minNumObj
           then lno_loop us (numObj, Some u, cs')
           else lno_loop us (minNumObj, lnoUpstream, cs'))"

definition lno ::
  "(nat \<Rightarrow> nat) \<Rightarrow> upstream list \<Rightarrow> (upstream option \<times> error option) \<times> call list" where
  "lno rng upstreams =
     (case lno_loop (Shuffle rng upstreams) (MaxInt64, None, []) of
        (minNumObj, lnoUpstream, cs) \<Rightarrow>
          if lnoUpstream = None then ((None, Some ErrorObjectNotFound), cs)
          else ((lnoUpstream, None), cs))"

fun lnoEntries_loop ::
  "entry list \<Rightarrow> int64 \<times> entry option \<times> call list
     \<Rightarrow> int64 \<times> entry option \<times> call list" where
  "lnoEntries_loop [] st = st"
| "lnoEntries_loop (e # es) (minNumObj, lnoEntry, cs) =
     (case GetNumObjects (UpstreamFs e) of (numObj, err) \<Rightarrow>
        let cs' = cs @ Call_GetNumObjects (Name (UpstreamFs e)) #
                    (if err \<noteq> None then [lno_notice (UpstreamFs e)] else [])
        in if numObj <s minNumObj
           then lnoEntries_loop es (numObj, Some e, cs')
           else lnoEntries_loop es (minNumObj, lnoEntry, cs'))"

text \<open>\<^verbatim>\<open>lnoEntries\<close> ends with \<^verbatim>\<open>return lnoEntry, nil\<close>: it does not test for \<^verbatim>\<open>nil\<close>.\<close>

definition lnoEntries ::
  "(nat \<Rightarrow> nat) \<Rightarrow> entry list \<Rightarrow> (entry option \<times> error option) \<times> call list" where
  "lnoEntries rng entries =
     (case lnoEntries_loop (Shuffle rng entries) (MaxInt64, None, []) of
        (minNumObj, lnoEntry, cs) \<Rightarrow> ((lnoEntry, None), cs))"

text \<open>
  The six methods. A returned slice is a list of pointers, each of which may be \<^verbatim>\<open>nil\<close>;
  the \<^verbatim>\<open>nil\<close> slice is the empty list.
\<close>

definition EpLno_Action ::
  "EpAll \<Rightarrow> (nat \<Rightarrow> nat) \<Rightarrow> upstream list \<Rightarrow> string
     \<Rightarrow> (upstream option list \<times> error option) \<times> call list" where
  "EpLno_Action p rng upstreams path =
     (case EpAll_Action p upstreams path of (upstreams', err) \<Rightarrow>
        if err \<noteq> None then (([], err), [Call_Filter])
        else (case lno rng upstreams' of ((u, err'), cs) \<Rightarrow> (([u], err'), Call_Filter # cs)))"

definition EpLno_ActionEntries ::
  "EpAll \<Rightarrow> (nat \<Rightarrow> nat) \<Rightarrow> entry list
     \<Rightarrow> (entry option list \<times> error option) \<times> call list" where
  "EpLno_ActionEntries p rng entries =
     (case EpAll_ActionEntries p entries of (entries', err) \<Rightarrow>
        if err \<noteq> None then (([], err), [Call_Filter])
        else (case lnoEntries rng entries' of ((e, err'), cs) \<Rightarrow> (([e], err'), Call_Filter # cs)))"

definition EpLno_Create ::
  "EpAll \<Rightarrow> (nat \<Rightarrow> nat) \<Rightarrow> upstream list \<Rightarrow> string
     \<Rightarrow> (upstream option list \<times> error option) \<times> call list" where
  "EpLno_Create p rng upstreams path =
     (case EpAll_Create p upstreams path of (upstreams', err) \<Rightarrow>
        if err \<noteq> None then (([], err), [Call_Filter])
        else (case lno rng upstreams' of ((u, err'), cs) \<Rightarrow> (([u], err'), Call_Filter # cs)))"

definition EpLno_CreateEntries ::
  "EpAll \<Rightarrow> (nat \<Rightarrow> nat) \<Rightarrow> entry list
     \<Rightarrow> (entry option list \<times> error option) \<times> call list" where
  "EpLno_CreateEntries p rng entries =
     (case EpAll_CreateEntries p entries of (entries', err) \<Rightarrow>
        if err \<noteq> None then (([], err), [Call_Filter])
        else (case lnoEntries rng entries' of ((e, err'), cs) \<Rightarrow> (([e], err'), Call_Filter # cs)))"

definition EpLno_Search ::
  "EpAll \<Rightarrow> (nat \<Rightarrow> nat) \<Rightarrow> upstream list \<Rightarrow> string
     \<Rightarrow> (upstream option \<times> error option) \<times> call list" where
  "EpLno_Search p rng upstreams path =
     (if length upstreams = 0 then ((None, Some ErrorObjectNotFound), [])
      else (case epall p upstreams path of (upstreams', err) \<Rightarrow>
        if err \<noteq> None then ((None, err), [Call_Filter])
        else (case lno rng upstreams' of (r, cs) \<Rightarrow> (r, Call_Filter # cs))))"

definition EpLno_SearchEntries ::
  "(nat \<Rightarrow> nat) \<Rightarrow> entry list \<Rightarrow> (entry option \<times> error option) \<times> call list" where
  "EpLno_SearchEntries rng entries =
     (if length entries = 0 then ((None, Some ErrorObjectNotFound), [])
      else lnoEntries rng entries)"

subsection \<open>EpLfs: least free space\<close>

definition lfs_notice :: "upstream \<Rightarrow> call" where
  "lfs_notice u = Call_LogPrintf
     (''Free Space is not supported for upstream '' @ Name u @ '', treating as infinite'')"

fun lfs_loop ::
  "upstream list \<Rightarrow> int64 \<times> upstream option \<times> call list
     \<Rightarrow> int64 \<times> upstream option \<times> call list" where
  "lfs_loop [] st = st"
| "lfs_loop (u # us) (minFreeSpace, lfsupstream, cs) =
     (case GetFreeSpace u of (space, err) \<Rightarrow>
        let cs' = cs @ Call_GetFreeSpace (Name u) # (if err \<noteq> None then [lfs_notice u] else [])
        in if space <s minFreeSpace \<and> MinFreeSpace u <s space
           then lfs_loop us (space, Some u, cs')
           else lfs_loop us (minFreeSpace, lfsupstream, cs'))"

definition lfs ::
  "(nat \<Rightarrow> nat) \<Rightarrow> upstream list \<Rightarrow> (upstream option \<times> error option) \<times> call list" where
  "lfs rng upstreams =
     (case lfs_loop (Shuffle rng upstreams) (MaxInt64, None, []) of
        (minFreeSpace, lfsupstream, cs) \<Rightarrow>
          if lfsupstream = None then ((None, Some errNoUpstreamsFound), cs)
          else ((lfsupstream, None), cs))"

fun lfsEntries_loop ::
  "entry list \<Rightarrow> int64 \<times> entry option \<times> call list
     \<Rightarrow> int64 \<times> entry option \<times> call list" where
  "lfsEntries_loop [] st = st"
| "lfsEntries_loop (e # es) (minFreeSpace, lfsEntry, cs) =
     (let u = UpstreamFs e in
      case GetFreeSpace u of (space, err) \<Rightarrow>
        let cs' = cs @ Call_GetFreeSpace (Name u) # (if err \<noteq> None then [lfs_notice u] else [])
        in if space <s minFreeSpace \<and> MinFreeSpace u <s space
           then lfsEntries_loop es (space, Some e, cs')
           else lfsEntries_loop es (minFreeSpace, lfsEntry, cs'))"

definition lfsEntries ::
  "(nat \<Rightarrow> nat) \<Rightarrow> entry list \<Rightarrow> (entry option \<times> error option) \<times> call list" where
  "lfsEntries rng entries =
     (case lfsEntries_loop (Shuffle rng entries) (MaxInt64, None, []) of
        (minFreeSpace, lfsEntry, cs) \<Rightarrow>
          if lfsEntry = None then ((None, Some errNoUpstreamsFound), cs)
          else ((lfsEntry, None), cs))"

definition EpLfs_Action ::
  "EpAll \<Rightarrow> (nat \<Rightarrow> nat) \<Rightarrow> upstream list \<Rightarrow> string
     \<Rightarrow> (upstream option list \<times> error option) \<times> call list" where
  "EpLfs_Action p rng upstreams path =
     (case EpAll_Action p upstreams path of (upstreams', err) \<Rightarrow>
        if err \<noteq> None then (([], err), [Call_Filter])
        else (case lfs rng upstreams' of ((u, err'), cs) \<Rightarrow> (([u], err'), Call_Filter # cs)))"

definition EpLfs_ActionEntries ::
  "EpAll \<Rightarrow> (nat \<Rightarrow> nat) \<Rightarrow> entry list
     \<Rightarrow> (entry option list \<times> error option) \<times> call list" where
  "EpLfs_ActionEntries p rng entries =
     (case EpAll_ActionEntries p entries of (entries', err) \<Rightarrow>
        if err \<noteq> None then (([], err), [Call_Filter])
        else (case lfsEntries rng entries' of ((e, err'), cs) \<Rightarrow> (([e], err'), Call_Filter # cs)))"

definition EpLfs_Create ::
  "EpAll \<Rightarrow> (nat \<Rightarrow> nat) \<Rightarrow> upstream list \<Rightarrow> string
     \<Rightarrow> (upstream option list \<times> error option) \<times> call list" where
  "EpLfs_Create p rng upstreams path =
     (case EpAll_Create p upstreams path of (upstreams', err) \<Rightarrow>
        if err \<noteq> None then (([], err), [Call_Filter])
        else (case lfs rng upstreams' of ((u, err'), cs) \<Rightarrow> (([u], err'), Call_Filter # cs)))"

definition EpLfs_CreateEntries ::
  "EpAll \<Rightarrow> (nat \<Rightarrow> nat) \<Rightarrow> entry list
     \<Rightarrow> (entry option list \<times> error option) \<times> call list" where
  "EpLfs_CreateEntries p rng entries =
     (case EpAll_CreateEntries p entries of (entries', err) \<Rightarrow>
        if err \<noteq> None then (([], err), [Call_Filter])
        else (case lfsEntries rng entries' of ((e, err'), cs) \<Rightarrow> (([e], err'), Call_Filter # cs)))"

definition EpLfs_Search ::
  "EpAll \<Rightarrow> (nat \<Rightarrow> nat) \<Rightarrow> upstream list \<Rightarrow> string
     \<Rightarrow> (upstream option \<times> error option) \<times> call list" where
  "EpLfs_Search p rng upstreams path =
     (if length upstreams = 0 then ((None, Some ErrorObjectNotFound), [])
      else (case epall p upstreams path of (upstreams', err) \<Rightarrow>
        if err \<noteq> None then ((None, err), [Call_Filter])
        else (case lfs rng upstreams' of (r, cs) \<Rightarrow> (r, Call_Filter # cs))))"

definition EpLfs_SearchEntries ::
  "(nat \<Rightarrow> nat) \<Rightarrow> entry list \<Rightarrow> (entry option \<times> error option) \<times> call list" where
  "EpLfs_SearchEntries rng entries =
     (if length entries = 0 then ((None, Some ErrorObjectNotFound), [])
      else lfsEntries rng entries)"

subsection \<open>The scan the four reductions share\<close>

text \<open>
  The four loops differ in the metric \<open>f\<close> they read and in the extra test \<open>ok\<close> on a
  candidate; \<open>scan\<close> is the loop with the calls left out. It is a device of the proofs:
  each loop is shown below to compute what \<open>scan\<close> computes.
\<close>

fun scan :: "('a \<Rightarrow> int64) \<Rightarrow> ('a \<Rightarrow> bool) \<Rightarrow> 'a list \<Rightarrow> int64 \<times> 'a option \<Rightarrow> int64 \<times> 'a option" where
  "scan f ok [] st = st"
| "scan f ok (x # xs) (m, b) =
     (if f x <s m \<and> ok x then scan f ok xs (f x, Some x) else scan f ok xs (m, b))"

definition numObj :: "upstream \<Rightarrow> int64" where
  "numObj u = fst (GetNumObjects u)"

definition space :: "upstream \<Rightarrow> int64" where
  "space u = fst (GetFreeSpace u)"

definition eligible :: "upstream \<Rightarrow> bool" where
  "eligible u = (MinFreeSpace u <s space u)"

subsection \<open>The object count with its fallback\<close>

text \<open>
  \<^verbatim>\<open>lno\<close> compares the first component of what \<^verbatim>\<open>GetNumObjects()\<close> returns, also when
  the second is an error; its notice says the upstream is then treated as having 0
  objects. \<open>count_or_fallback\<close> is the count read that way (0 in place of a count that
  came with an error), and \<open>treating_as_0 u\<close> says that the value \<open>u\<close> returns with
  an error is 0, as the notice has it.
\<close>

definition count_or_fallback :: "upstream \<Rightarrow> int64" where
  "count_or_fallback u = (case GetNumObjects u of (n, err) \<Rightarrow> if err \<noteq> None then 0 else n)"

definition treating_as_0 :: "upstream \<Rightarrow> bool" where
  "treating_as_0 u = (case GetNumObjects u of (n, err) \<Rightarrow> err = None \<or> n = 0)"

subsection \<open>The free space that stands for infinite\<close>

text \<open>
  \<^verbatim>\<open>lfs\<close> likewise compares the first component of what \<^verbatim>\<open>GetFreeSpace()\<close> returns, also
  when the second is an error; its notice says the upstream is then treated as having
  infinite free space. The running best starts at \<^verbatim>\<open>math.MaxInt64\<close> and is replaced only
  by a value strictly below it, so the value that stands for infinite is
  \<^verbatim>\<open>math.MaxInt64 - 1\<close>, the greatest one that can still be recorded.
  \<open>treating_as_infinite u\<close> says that this is the value \<open>u\<close> returns with an error.
\<close>

definition treating_as_infinite :: "upstream \<Rightarrow> bool" where
  "treating_as_infinite u =
     (case GetFreeSpace u of (s, err) \<Rightarrow> err = None \<or> s = MaxInt64 - 1)"

subsection \<open>Candidates, random draws and base policies of the examples\<close>

text \<open>
  The examples below run the policies on concrete inputs. \<open>reporting\<close> is an upstream
  whose two queries succeed; \<open>unsupported\<close> one whose two queries return an error
  together with the given values; \<open>listed u\<close> is an entry that came from \<open>u\<close>.
  With the draws of \<open>keep_order\<close> every swap of the shuffle exchanges an element
  with itself, so the list stays as it is; with those of \<open>draw_first\<close> each swap is
  with index 0. \<open>pass_through\<close> is a base policy that keeps every candidate, and
  \<open>failing e\<close> one whose every method fails with \<open>e\<close>.
\<close>

definition reporting :: "string \<Rightarrow> int64 \<Rightarrow> int64 \<Rightarrow> int64 \<Rightarrow> upstream" where
  "reporting name objects free reserved =
     \<lparr>Name = name, GetNumObjects = (objects, None), GetFreeSpace = (free, None),
      MinFreeSpace = reserved\<rparr>"

definition unsupported :: "string \<Rightarrow> int64 \<Rightarrow> int64 \<Rightarrow> int64 \<Rightarrow> upstream" where
  "unsupported name objects free reserved =
     \<lparr>Name = name,
      GetNumObjects = (objects, Some (ErrorOther ''usage field not supported'')),
      GetFreeSpace = (free, Some (ErrorOther ''usage field not supported'')),
      MinFreeSpace = reserved\<rparr>"

definition listed :: "upstream \<Rightarrow> entry" where
  "listed u = \<lparr>Remote = ''file'', UpstreamFs = u\<rparr>"

definition keep_order :: "nat \<Rightarrow> nat" where
  "keep_order i = i"

definition draw_first :: "nat \<Rightarrow> nat" where
  "draw_first i = 0"

definition pass_through :: EpAll where
  "pass_through =
     \<lparr>EpAll_Action = (\<lambda>upstreams path. (upstreams, None)),
      EpAll_ActionEntries = (\<lambda>entries. (entries, None)),
      EpAll_Create = (\<lambda>upstreams path. (upstreams, None)),
      EpAll_CreateEntries = (\<lambda>entries. (entries, None)),
      epall = (\<lambda>upstreams path. (upstreams, None))\<rparr>"

definition failing :: "error \<Rightarrow> EpAll" where
  "failing e =
     \<lparr>EpAll_Action = (\<lambda>upstreams path. ([], Some e)),
      EpAll_ActionEntries = (\<lambda>entries. ([], Some e)),
      EpAll_Create = (\<lambda>upstreams path. ([], Some e)),
      EpAll_CreateEntries = (\<lambda>entries. ([], Some e)),
      epall = (\<lambda>upstreams path. ([], Some e))\<rparr>"

section \<open>Properties\<close>

subsection \<open>The shuffle permutes\<close>

lemma mset_swap_in_range:
  "i < length xs \<Longrightarrow> j < length xs \<Longrightarrow> mset (swap i j xs) = mset xs"
  unfolding swap_def by (rule mset_swap)

lemma length_swap: "length (swap i j xs) = length xs"
  by (simp add: swap_def)

lemma mset_shuffle_loop:
  "i < length xs \<or> i = 0 \<Longrightarrow> mset (shuffle_loop rng i xs) = mset xs"
proof (induction i arbitrary: xs)
  case 0
  show ?case by simp
next
  case (Suc i)
  then have in_range: "Suc i < length xs" by simp
  have draw: "rng (Suc i) mod Suc (Suc i) < length xs"
    using in_range by (meson Suc_lessI less_trans_Suc mod_less_divisor not_less_eq zero_less_Suc)
  have "mset (shuffle_loop rng i (swap (Suc i) (rng (Suc i) mod Suc (Suc i)) xs))
      = mset (swap (Suc i) (rng (Suc i) mod Suc (Suc i)) xs)"
    using in_range by (intro Suc.IH) (simp add: length_swap)
  then show ?case
    using in_range draw by (simp add: mset_swap_in_range)
qed

lemma mset_Shuffle: "mset (Shuffle rng xs) = mset xs"
  unfolding Shuffle_def by (rule mset_shuffle_loop) (cases xs, simp_all)

lemma set_Shuffle: "set (Shuffle rng xs) = set xs"
  using mset_Shuffle [of rng xs] by (metis set_mset_mset)

subsection \<open>The scan\<close>

lemma sless_trans: "a <s b \<Longrightarrow> b <s c \<Longrightarrow> a <s (c::int64)"
  by (simp add: word_sless_alt)

lemma not_sless_trans: "a <s b \<Longrightarrow> \<not> c <s b \<Longrightarrow> a <s (c::int64)"
  by (simp add: word_sless_alt)

text \<open>
  What a scan leaves behind: either nothing was recorded, and then no candidate that
  passes \<open>ok\<close> is below the running best it started from; or the recorded candidate
  \<open>x\<close> splits the list so that the candidates before it are strictly greater and
  those after it are not smaller.
\<close>

lemma scan_cases:
  "scan f ok xs (m, b) = (m', b') \<Longrightarrow>
     (m' = m \<and> b' = b \<and> (\<forall>y\<in>set xs. ok y \<longrightarrow> \<not> f y <s m))
   \<or> (\<exists>ys x zs. xs = ys @ x # zs \<and> b' = Some x \<and> m' = f x \<and> ok x \<and> f x <s m
        \<and> (\<forall>y\<in>set ys. ok y \<longrightarrow> f x <s f y) \<and> (\<forall>z\<in>set zs. ok z \<longrightarrow> \<not> f z <s f x))"
proof (induction xs arbitrary: m b)
  case Nil
  then show ?case by simp
next
  case (Cons a as)
  show ?case
  proof (cases "f a <s m \<and> ok a")
    case True
    with Cons.prems have run: "scan f ok as (f a, Some a) = (m', b')" by simp
    from Cons.IH [OF run] show ?thesis
    proof
      assume "m' = f a \<and> b' = Some a \<and> (\<forall>y\<in>set as. ok y \<longrightarrow> \<not> f y <s f a)"
      with True have "a # as = [] @ a # as \<and> b' = Some a \<and> m' = f a \<and> ok a \<and> f a <s m
        \<and> (\<forall>y\<in>set []. ok y \<longrightarrow> f a <s f y) \<and> (\<forall>z\<in>set as. ok z \<longrightarrow> \<not> f z <s f a)"
        by simp
      then show ?thesis by blast
    next
      assume "\<exists>ys x zs. as = ys @ x # zs \<and> b' = Some x \<and> m' = f x \<and> ok x \<and> f x <s f a
        \<and> (\<forall>y\<in>set ys. ok y \<longrightarrow> f x <s f y) \<and> (\<forall>z\<in>set zs. ok z \<longrightarrow> \<not> f z <s f x)"
      then obtain ys x zs where d: "as = ys @ x # zs" "b' = Some x" "m' = f x" "ok x" "f x <s f a"
        "\<forall>y\<in>set ys. ok y \<longrightarrow> f x <s f y" "\<forall>z\<in>set zs. ok z \<longrightarrow> \<not> f z <s f x"
        by blast
      have "f x <s m" using d(5) True by (blast intro: sless_trans)
      with d have "a # as = (a # ys) @ x # zs \<and> b' = Some x \<and> m' = f x \<and> ok x \<and> f x <s m
        \<and> (\<forall>y\<in>set (a # ys). ok y \<longrightarrow> f x <s f y) \<and> (\<forall>z\<in>set zs. ok z \<longrightarrow> \<not> f z <s f x)"
        by simp
      then show ?thesis by blast
    qed
  next
    case False
    with Cons.prems have run: "scan f ok as (m, b) = (m', b')" by auto
    from Cons.IH [OF run] show ?thesis
    proof
      assume "m' = m \<and> b' = b \<and> (\<forall>y\<in>set as. ok y \<longrightarrow> \<not> f y <s m)"
      with False show ?thesis by auto
    next
      assume "\<exists>ys x zs. as = ys @ x # zs \<and> b' = Some x \<and> m' = f x \<and> ok x \<and> f x <s m
        \<and> (\<forall>y\<in>set ys. ok y \<longrightarrow> f x <s f y) \<and> (\<forall>z\<in>set zs. ok z \<longrightarrow> \<not> f z <s f x)"
      then obtain ys x zs where d: "as = ys @ x # zs" "b' = Some x" "m' = f x" "ok x" "f x <s m"
        "\<forall>y\<in>set ys. ok y \<longrightarrow> f x <s f y" "\<forall>z\<in>set zs. ok z \<longrightarrow> \<not> f z <s f x"
        by blast
      have "ok a \<longrightarrow> f x <s f a" using d(5) False by (blast intro: not_sless_trans)
      with d have "a # as = (a # ys) @ x # zs \<and> b' = Some x \<and> m' = f x \<and> ok x \<and> f x <s m
        \<and> (\<forall>y\<in>set (a # ys). ok y \<longrightarrow> f x <s f y) \<and> (\<forall>z\<in>set zs. ok z \<longrightarrow> \<not> f z <s f x)"
        by simp
      then show ?thesis by blast
    qed
  qed
qed

text \<open>Each loop of the source computes the scan of its metric and its test.\<close>

lemma lno_loop_scan:
  "lno_loop us (m, b, cs) = (m', b', cs') \<Longrightarrow> scan numObj (\<lambda>_. True) us (m, b) = (m', b')"
  by (induction us arbitrary: m b cs) (auto simp: numObj_def Let_def split: prod.splits if_splits)

lemma lnoEntries_loop_scan:
  "lnoEntries_loop es (m, b, cs) = (m', b', cs') \<Longrightarrow>
     scan (\<lambda>e. numObj (UpstreamFs e)) (\<lambda>_. True) es (m, b) = (m', b')"
  by (induction es arbitrary: m b cs) (auto simp: numObj_def Let_def split: prod.splits if_splits)

lemma lfs_loop_scan:
  "lfs_loop us (m, b, cs) = (m', b', cs') \<Longrightarrow> scan space eligible us (m, b) = (m', b')"
  by (induction us arbitrary: m b cs)
     (auto simp: space_def eligible_def Let_def split: prod.splits if_splits)

lemma lfsEntries_loop_scan:
  "lfsEntries_loop es (m, b, cs) = (m', b', cs') \<Longrightarrow>
     scan (\<lambda>e. space (UpstreamFs e)) (\<lambda>e. eligible (UpstreamFs e)) es (m, b) = (m', b')"
  by (induction es arbitrary: m b cs)
     (auto simp: space_def eligible_def Let_def split: prod.splits if_splits)

lemma sint_MaxInt64: "sint MaxInt64 = 9223372036854775807"
  by (simp add: MaxInt64_def)

lemma sless_MaxInt64: "x <s MaxInt64 \<longleftrightarrow> x \<noteq> MaxInt64"
proof -
  have "sint x < 2 ^ (LENGTH(64) - 1)" by (rule sint_lt)
  then have "sint x \<le> sint MaxInt64" by (simp add: sint_MaxInt64)
  moreover have "sint x = sint MaxInt64 \<longleftrightarrow> x = MaxInt64"
    by (auto intro: signed_word_eqI)
  ultimately show ?thesis by (auto simp: word_sless_alt)
qed

lemma scan_Some:
  "scan f ok xs (m, None) = (m', Some x) \<Longrightarrow>
     \<exists>ys zs. xs = ys @ x # zs \<and> m' = f x \<and> ok x \<and> f x <s m
        \<and> (\<forall>y\<in>set ys. ok y \<longrightarrow> f x <s f y) \<and> (\<forall>z\<in>set zs. ok z \<longrightarrow> \<not> f z <s f x)"
  by (drule scan_cases) auto

lemma scan_None:
  "scan f ok xs (m, None) = (m', None) \<Longrightarrow> m' = m \<and> (\<forall>y\<in>set xs. ok y \<longrightarrow> \<not> f y <s m)"
  by (drule scan_cases) auto

lemma scan_unchanged:
  "(\<forall>y\<in>set xs. ok y \<longrightarrow> \<not> f y <s m) \<Longrightarrow> scan f ok xs (m, b) = (m, b)"
  by (induction xs) auto

lemma lno_scan:
  "fst (fst (lno rng us)) = snd (scan numObj (\<lambda>_. True) (Shuffle rng us) (MaxInt64, None))"
  by (auto simp: lno_def split: prod.splits dest: lno_loop_scan)

lemma lnoEntries_scan:
  "fst (fst (lnoEntries rng es)) =
     snd (scan (\<lambda>e. numObj (UpstreamFs e)) (\<lambda>_. True) (Shuffle rng es) (MaxInt64, None))"
  by (auto simp: lnoEntries_def split: prod.splits dest: lnoEntries_loop_scan)

lemma lfs_scan:
  "fst (fst (lfs rng us)) = snd (scan space eligible (Shuffle rng us) (MaxInt64, None))"
  by (auto simp: lfs_def split: prod.splits dest: lfs_loop_scan)

lemma lfsEntries_scan:
  "fst (fst (lfsEntries rng es)) =
     snd (scan (\<lambda>e. space (UpstreamFs e)) (\<lambda>e. eligible (UpstreamFs e)) (Shuffle rng es) (MaxInt64, None))"
  by (auto simp: lfsEntries_def split: prod.splits dest: lfsEntries_loop_scan)

lemma scan_first_least:
  "snd (scan f ok xs (MaxInt64, None)) = Some x \<Longrightarrow>
     \<exists>ys zs. xs = ys @ x # zs \<and> ok x \<and> f x <s MaxInt64
        \<and> (\<forall>y\<in>set ys. ok y \<longrightarrow> f x <s f y) \<and> (\<forall>z\<in>set zs. ok z \<longrightarrow> \<not> f z <s f x)"
proof -
  assume r: "snd (scan f ok xs (MaxInt64, None)) = Some x"
  obtain m' where "scan f ok xs (MaxInt64, None) = (m', Some x)"
    using r by (cases "scan f ok xs (MaxInt64, None)") simp
  from scan_Some [OF this] show ?thesis by blast
qed

lemma scan_nothing:
  "snd (scan f ok xs (MaxInt64, None)) = None \<longleftrightarrow> (\<forall>y\<in>set xs. ok y \<longrightarrow> f y = MaxInt64)"
proof
  assume r: "snd (scan f ok xs (MaxInt64, None)) = None"
  obtain m' where "scan f ok xs (MaxInt64, None) = (m', None)"
    using r by (cases "scan f ok xs (MaxInt64, None)") simp
  from scan_None [OF this] show "\<forall>y\<in>set xs. ok y \<longrightarrow> f y = MaxInt64"
    by (simp add: sless_MaxInt64)
next
  assume "\<forall>y\<in>set xs. ok y \<longrightarrow> f y = MaxInt64"
  then have "\<forall>y\<in>set xs. ok y \<longrightarrow> \<not> f y <s MaxInt64"
    by (simp add: sless_MaxInt64)
  then show "snd (scan f ok xs (MaxInt64, None)) = None"
    by (simp add: scan_unchanged)
qed

lemma not_sless_iff: "\<not> a <s b \<longleftrightarrow> b \<le>s (a::int64)"
  by (auto simp: word_sless_alt word_sle_eq)

lemma sless_imp_sle: "a <s b \<Longrightarrow> a \<le>s (b::int64)"
  by (simp add: word_sless_alt word_sle_eq)

lemma sless_asym: "a <s b \<Longrightarrow> \<not> b <s (a::int64)"
  by (simp add: word_sless_alt)

lemma scan_unique_best:
  assumes "x \<in> set xs" and "ok x" and "f x <s MaxInt64"
    and others: "\<forall>w\<in>set xs. w = x \<or> \<not> ok w \<or> f x <s f w"
  shows "snd (scan f ok xs (MaxInt64, None)) = Some x"
proof (cases "snd (scan f ok xs (MaxInt64, None))")
  case None
  then have "f x = MaxInt64"
    using assms(1,2) by (simp add: scan_nothing)
  with assms(3) show ?thesis by (simp add: sless_MaxInt64)
next
  case (Some b)
  from scan_first_least [OF Some] obtain ys zs where
    d: "xs = ys @ b # zs" "ok b"
       "\<forall>y\<in>set ys. ok y \<longrightarrow> f b <s f y" "\<forall>z\<in>set zs. ok z \<longrightarrow> \<not> f z <s f b"
    by blast
  have "b = x"
  proof (rule ccontr)
    assume ne: "b \<noteq> x"
    have "b \<in> set xs" using d(1) by simp
    with others ne d(2) have lt: "f x <s f b" by blast
    from assms(1) d(1) ne have "x \<in> set ys \<or> x \<in> set zs" by auto
    then show False
      using d(3,4) assms(2) lt by (auto dest: sless_asym)
  qed
  with Some show ?thesis by simp
qed

subsection \<open>What the reductions return\<close>

lemma count_or_fallback_eq: "treating_as_0 u \<Longrightarrow> count_or_fallback u = fst (GetNumObjects u)"
  by (auto simp: treating_as_0_def count_or_fallback_def split: prod.splits)

lemma unknown_space_infinite:
  "snd (GetFreeSpace u) \<noteq> None \<Longrightarrow> treating_as_infinite u \<Longrightarrow> space u = MaxInt64 - 1"
  by (auto simp: treating_as_infinite_def space_def split: prod.splits)

lemma lno_first_least:
  assumes "fst (fst (lno rng upstreams)) = Some u"
  shows "\<exists>ys zs. Shuffle rng upstreams = ys @ u # zs \<and> numObj u <s MaxInt64
           \<and> (\<forall>y\<in>set ys. numObj u <s numObj y) \<and> (\<forall>z\<in>set zs. \<not> numObj z <s numObj u)"
proof -
  from assms have "snd (scan numObj (\<lambda>_. True) (Shuffle rng upstreams) (MaxInt64, None)) = Some u"
    by (simp add: lno_scan)
  from scan_first_least [OF this] show ?thesis by simp
qed

lemma lnoEntries_first_least:
  assumes "fst (fst (lnoEntries rng entries)) = Some e"
  shows "\<exists>ys zs. Shuffle rng entries = ys @ e # zs \<and> numObj (UpstreamFs e) <s MaxInt64
           \<and> (\<forall>y\<in>set ys. numObj (UpstreamFs e) <s numObj (UpstreamFs y))
           \<and> (\<forall>z\<in>set zs. \<not> numObj (UpstreamFs z) <s numObj (UpstreamFs e))"
proof -
  from assms have "snd (scan (\<lambda>e. numObj (UpstreamFs e)) (\<lambda>_. True)
      (Shuffle rng entries) (MaxInt64, None)) = Some e"
    by (simp add: lnoEntries_scan)
  from scan_first_least [OF this] show ?thesis by simp
qed

lemma lfs_first_least:
  assumes "fst (fst (lfs rng upstreams)) = Some u"
  shows "\<exists>ys zs. Shuffle rng upstreams = ys @ u # zs \<and> eligible u \<and> space u <s MaxInt64
           \<and> (\<forall>y\<in>set ys. eligible y \<longrightarrow> space u <s space y)
           \<and> (\<forall>z\<in>set zs. eligible z \<longrightarrow> \<not> space z <s space u)"
proof -
  from assms have "snd (scan space eligible (Shuffle rng upstreams) (MaxInt64, None)) = Some u"
    by (simp add: lfs_scan)
  from scan_first_least [OF this] show ?thesis by simp
qed

lemma lfsEntries_first_least:
  assumes "fst (fst (lfsEntries rng entries)) = Some e"
  shows "\<exists>ys zs. Shuffle rng entries = ys @ e # zs \<and> eligible (UpstreamFs e)
           \<and> space (UpstreamFs e) <s MaxInt64
           \<and> (\<forall>y\<in>set ys. eligible (UpstreamFs y) \<longrightarrow> space (UpstreamFs e) <s space (UpstreamFs y))
           \<and> (\<forall>z\<in>set zs. eligible (UpstreamFs z) \<longrightarrow> \<not> space (UpstreamFs z) <s space (UpstreamFs e))"
proof -
  from assms have "snd (scan (\<lambda>e. space (UpstreamFs e)) (\<lambda>e. eligible (UpstreamFs e))
      (Shuffle rng entries) (MaxInt64, None)) = Some e"
    by (simp add: lfsEntries_scan)
  from scan_first_least [OF this] show ?thesis by simp
qed

lemma lno_shape:
  "fst (lno rng upstreams) =
     (case fst (fst (lno rng upstreams)) of
        None \<Rightarrow> (None, Some ErrorObjectNotFound) | Some u \<Rightarrow> (Some u, None))"
  by (auto simp: lno_def split: prod.splits option.splits)

lemma lnoEntries_shape:
  "fst (lnoEntries rng entries) = (fst (fst (lnoEntries rng entries)), None)"
  by (auto simp: lnoEntries_def split: prod.splits)

lemma lfs_shape:
  "fst (lfs rng upstreams) =
     (case fst (fst (lfs rng upstreams)) of
        None \<Rightarrow> (None, Some errNoUpstreamsFound) | Some u \<Rightarrow> (Some u, None))"
  by (auto simp: lfs_def split: prod.splits option.splits)

lemma lfsEntries_shape:
  "fst (lfsEntries rng entries) =
     (case fst (fst (lfsEntries rng entries)) of
        None \<Rightarrow> (None, Some errNoUpstreamsFound) | Some e \<Rightarrow> (Some e, None))"
  by (auto simp: lfsEntries_def split: prod.splits option.splits)

subsection \<open>Least free space: the threshold\<close>

text \<open>
  C1. Whatever the draws of the shuffle and whatever the candidates, an upstream that
  \<open>lfs\<close> returns, and the upstream of an entry that \<open>lfsEntries\<close> returns, has
  reported more free space than its own \<^verbatim>\<open>MinFreeSpace\<close>. So an upstream at or below its
  threshold is never returned, even when its free space is the least of all; in the
  example \<open>A\<close> has the least free space (10) but a threshold of 20, and \<open>B\<close> is returned.
\<close>

theorem lfs_above_threshold:
  "(fst (fst (lfs rng upstreams)) = Some u \<longrightarrow> MinFreeSpace u <s fst (GetFreeSpace u)) \<and>
   (fst (fst (lfsEntries rng entries)) = Some e \<longrightarrow>
      MinFreeSpace (UpstreamFs e) <s fst (GetFreeSpace (UpstreamFs e)))"
proof (intro conjI impI)
  assume "fst (fst (lfs rng upstreams)) = Some u"
  then have "snd (scan space eligible (Shuffle rng upstreams) (MaxInt64, None)) = Some u"
    by (simp add: lfs_scan)
  from scan_first_least [OF this] have "eligible u" by blast
  then show "MinFreeSpace u <s fst (GetFreeSpace u)"
    by (simp add: eligible_def space_def)
next
  assume "fst (fst (lfsEntries rng entries)) = Some e"
  then have "snd (scan (\<lambda>e. space (UpstreamFs e)) (\<lambda>e. eligible (UpstreamFs e))
      (Shuffle rng entries) (MaxInt64, None)) = Some e"
    by (simp add: lfsEntries_scan)
  from scan_first_least [OF this] have "eligible (UpstreamFs e)" by blast
  then show "MinFreeSpace (UpstreamFs e) <s fst (GetFreeSpace (UpstreamFs e))"
    by (simp add: eligible_def space_def)
qed

theorem lfs_above_threshold_witness:
  "fst (fst (lfs keep_order [reporting ''A'' 0 10 20, reporting ''B'' 0 50 0])) =
     Some (reporting ''B'' 0 50 0) \<and>
   MinFreeSpace (reporting ''B'' 0 50 0) <s fst (GetFreeSpace (reporting ''B'' 0 50 0)) \<and>
   fst (fst (lfsEntries keep_order
     [listed (reporting ''A'' 0 10 20), listed (reporting ''B'' 0 50 0)])) =
     Some (listed (reporting ''B'' 0 50 0)) \<and>
   MinFreeSpace (UpstreamFs (listed (reporting ''B'' 0 50 0))) <s
     fst (GetFreeSpace (UpstreamFs (listed (reporting ''B'' 0 50 0))))"
proof -
  have a: "fst (fst (lfs keep_order [reporting ''A'' 0 10 20, reporting ''B'' 0 50 0])) =
     Some (reporting ''B'' 0 50 0)"
    by code_simp
  have b: "fst (fst (lfsEntries keep_order
     [listed (reporting ''A'' 0 10 20), listed (reporting ''B'' 0 50 0)])) =
     Some (listed (reporting ''B'' 0 50 0))"
    by code_simp
  from a b lfs_above_threshold [of keep_order "[reporting ''A'' 0 10 20, reporting ''B'' 0 50 0]"
      "reporting ''B'' 0 50 0"
      "[listed (reporting ''A'' 0 10 20), listed (reporting ''B'' 0 50 0)]"
      "listed (reporting ''B'' 0 50 0)"]
  show ?thesis by blast
qed

subsection \<open>Least number of objects: the winner has the least count\<close>

text \<open>
  C2. An upstream \<open>u\<close> that \<open>lno\<close> returns has a count that is at most the count of every
  candidate \<open>v\<close> of the input: so it is for the values \<^verbatim>\<open>GetNumObjects()\<close> returned,
  and, when every candidate whose query fails returns 0 with the error, for the counts
  read with the fallback 0. In the example the query of \<open>A\<close> fails, \<open>B\<close> reports 3 objects, and
  \<open>A\<close> is returned.
\<close>

theorem lno_least_count:
  assumes "fst (fst (lno rng upstreams)) = Some u" and "v \<in> set upstreams"
  shows "fst (GetNumObjects u) \<le>s fst (GetNumObjects v) \<and>
         (list_all treating_as_0 upstreams \<longrightarrow> count_or_fallback u \<le>s count_or_fallback v)"
proof -
  from lno_first_least [OF assms(1)] obtain ys zs where
    d: "Shuffle rng upstreams = ys @ u # zs"
       "\<forall>y\<in>set ys. numObj u <s numObj y" "\<forall>z\<in>set zs. \<not> numObj z <s numObj u"
    by blast
  have "set upstreams = set (ys @ u # zs)"
    using d(1) set_Shuffle [of rng upstreams] by simp
  with assms(2) have "v \<in> set ys \<or> v = u \<or> v \<in> set zs" by auto
  then have le: "numObj u \<le>s numObj v"
    using d(2,3) by (auto simp: not_sless_iff sless_imp_sle)
  have "u \<in> set upstreams"
    using d(1) set_Shuffle [of rng upstreams] by (metis in_set_conv_decomp)
  then have "list_all treating_as_0 upstreams \<Longrightarrow>
      count_or_fallback u = numObj u \<and> count_or_fallback v = numObj v"
    using assms(2) by (simp add: list_all_iff count_or_fallback_eq numObj_def)
  with le show ?thesis by (auto simp: numObj_def)
qed

theorem lno_least_count_witness:
  "fst (fst (lno draw_first [unsupported ''A'' 0 0 0, reporting ''B'' 3 0 0])) =
     Some (unsupported ''A'' 0 0 0) \<and>
   reporting ''B'' 3 0 0 \<in> set [unsupported ''A'' 0 0 0, reporting ''B'' 3 0 0] \<and>
   list_all treating_as_0 [unsupported ''A'' 0 0 0, reporting ''B'' 3 0 0] \<and>
   count_or_fallback (unsupported ''A'' 0 0 0) = 0 \<and>
   count_or_fallback (reporting ''B'' 3 0 0) = 3 \<and>
   count_or_fallback (unsupported ''A'' 0 0 0) \<le>s count_or_fallback (reporting ''B'' 3 0 0)"
proof -
  have a: "fst (fst (lno draw_first [unsupported ''A'' 0 0 0, reporting ''B'' 3 0 0])) =
     Some (unsupported ''A'' 0 0 0)"
    by code_simp
  have b: "reporting ''B'' 3 0 0 \<in> set [unsupported ''A'' 0 0 0, reporting ''B'' 3 0 0]"
    by simp
  have c: "list_all treating_as_0 [unsupported ''A'' 0 0 0, reporting ''B'' 3 0 0]"
    by code_simp
  have d: "count_or_fallback (unsupported ''A'' 0 0 0) = 0"
    by code_simp
  have e: "count_or_fallback (reporting ''B'' 3 0 0) = 3"
    by code_simp
  from lno_least_count [OF a b] c have
    "count_or_fallback (unsupported ''A'' 0 0 0) \<le>s count_or_fallback (reporting ''B'' 3 0 0)"
    by blast
  with a b c d e show ?thesis by blast
qed

subsection \<open>Least free space: an upstream whose query fails\<close>

text \<open>
  C3, as amended. Let the query of \<open>u\<close> fail and return \<^verbatim>\<open>math.MaxInt64 - 1\<close> with its
  error, the value that stands for infinite free space. Then \<open>lfs\<close> does not return
  \<open>u\<close> when some candidate \<open>v\<close> reports its free space without an error, is above its
  own threshold and reports less than \<^verbatim>\<open>math.MaxInt64 - 1\<close>. And \<open>lfs\<close> returns \<open>u\<close>
  when \<open>u\<close> is above its own threshold and every other candidate is at or below its
  own threshold or reports more; this covers \<open>u\<close> as the only candidate.
  The counterexample to the claim as stated is a second candidate that reports
  \<^verbatim>\<open>math.MaxInt64 - 1\<close> bytes without an error and is above its threshold: the test
  \<^verbatim>\<open>space < minFreeSpace\<close> is strict, so of the two the first in the shuffled order is
  recorded, and the failing upstream is returned when it comes first.
\<close>

theorem lfs_unknown_free_space:
  "(snd (GetFreeSpace u) \<noteq> None \<and> treating_as_infinite u \<and>
    v \<in> set upstreams \<and> snd (GetFreeSpace v) = None \<and>
    MinFreeSpace v <s fst (GetFreeSpace v) \<and> fst (GetFreeSpace v) <s MaxInt64 - 1
      \<longrightarrow> fst (fst (lfs rng upstreams)) \<noteq> Some u) \<and>
   (u \<in> set upstreams \<and> snd (GetFreeSpace u) \<noteq> None \<and> treating_as_infinite u \<and>
    MinFreeSpace u <s MaxInt64 - 1 \<and>
    (\<forall>w\<in>set upstreams. w = u \<or> \<not> MinFreeSpace w <s fst (GetFreeSpace w)
                            \<or> MaxInt64 - 1 <s fst (GetFreeSpace w))
      \<longrightarrow> fst (lfs rng upstreams) = (Some u, None))"
proof (intro conjI impI)
  assume a: "snd (GetFreeSpace u) \<noteq> None \<and> treating_as_infinite u \<and>
    v \<in> set upstreams \<and> snd (GetFreeSpace v) = None \<and>
    MinFreeSpace v <s fst (GetFreeSpace v) \<and> fst (GetFreeSpace v) <s MaxInt64 - 1"
  then have inf: "space u = MaxInt64 - 1"
    by (simp add: unknown_space_infinite)
  from a have v: "v \<in> set upstreams" and el: "eligible v" and less: "space v <s space u"
    by (simp_all add: eligible_def space_def inf [unfolded space_def])
  show "fst (fst (lfs rng upstreams)) \<noteq> Some u"
  proof
    assume sel: "fst (fst (lfs rng upstreams)) = Some u"
    from lfs_first_least [OF sel] obtain ys zs where
      d: "Shuffle rng upstreams = ys @ u # zs"
         "\<forall>y\<in>set ys. eligible y \<longrightarrow> space u <s space y"
         "\<forall>z\<in>set zs. eligible z \<longrightarrow> \<not> space z <s space u"
      by blast
    have "set upstreams = set (ys @ u # zs)"
      using d(1) set_Shuffle [of rng upstreams] by simp
    with v have "v \<in> set ys \<or> v = u \<or> v \<in> set zs" by auto
    then have "\<not> space v <s space u"
      using d(2,3) el by (auto dest: sless_asym)
    with less show False by simp
  qed
next
  assume a: "u \<in> set upstreams \<and> snd (GetFreeSpace u) \<noteq> None \<and> treating_as_infinite u \<and>
    MinFreeSpace u <s MaxInt64 - 1 \<and>
    (\<forall>w\<in>set upstreams. w = u \<or> \<not> MinFreeSpace w <s fst (GetFreeSpace w)
                            \<or> MaxInt64 - 1 <s fst (GetFreeSpace w))"
  then have inf: "space u = MaxInt64 - 1"
    by (simp add: unknown_space_infinite)
  have below: "MaxInt64 - 1 <s MaxInt64"
    by (simp add: MaxInt64_def)
  from a have "u \<in> set (Shuffle rng upstreams)" and "eligible u" and "space u <s MaxInt64"
    and "\<forall>w\<in>set (Shuffle rng upstreams). w = u \<or> \<not> eligible w \<or> space u <s space w"
    using below by (simp_all add: set_Shuffle eligible_def inf) (simp_all add: space_def)
  then have "snd (scan space eligible (Shuffle rng upstreams) (MaxInt64, None)) = Some u"
    by (rule scan_unique_best)
  then have "fst (fst (lfs rng upstreams)) = Some u"
    by (simp add: lfs_scan)
  then show "fst (lfs rng upstreams) = (Some u, None)"
    using lfs_shape [of rng upstreams] by simp
qed

theorem lfs_unknown_free_space_counterexample:
  "fst (lfs keep_order
      [unsupported ''E'' 0 9223372036854775806 0, reporting ''V'' 0 9223372036854775806 0]) =
     (Some (unsupported ''E'' 0 9223372036854775806 0), None) \<and>
   snd (GetFreeSpace (unsupported ''E'' 0 9223372036854775806 0)) \<noteq> None \<and>
   fst (GetFreeSpace (unsupported ''E'' 0 9223372036854775806 0)) = MaxInt64 - 1 \<and>
   GetFreeSpace (reporting ''V'' 0 9223372036854775806 0) = (9223372036854775806, None) \<and>
   MinFreeSpace (reporting ''V'' 0 9223372036854775806 0) <s
     fst (GetFreeSpace (reporting ''V'' 0 9223372036854775806 0))"
  by code_simp

theorem lfs_unknown_free_space_witness:
  "fst (fst (lfs draw_first
      [unsupported ''E'' 0 9223372036854775806 0, reporting ''B'' 0 50 0])) \<noteq>
     Some (unsupported ''E'' 0 9223372036854775806 0) \<and>
   fst (fst (lfs keep_order
      [unsupported ''E'' 0 9223372036854775806 0, reporting ''B'' 0 50 0])) \<noteq>
     Some (unsupported ''E'' 0 9223372036854775806 0) \<and>
   fst (lfs draw_first
      [unsupported ''E'' 0 9223372036854775806 0, reporting ''A'' 0 10 20]) =
     (Some (unsupported ''E'' 0 9223372036854775806 0), None) \<and>
   fst (lfs draw_first [unsupported ''E'' 0 9223372036854775806 0]) =
     (Some (unsupported ''E'' 0 9223372036854775806 0), None)"
proof -
  let ?E = "unsupported ''E'' 0 9223372036854775806 0"
  let ?A = "reporting ''A'' 0 10 20"
  let ?B = "reporting ''B'' 0 50 0"
  have err: "snd (GetFreeSpace ?E) \<noteq> None" by code_simp
  have inf: "treating_as_infinite ?E" by code_simp
  have memB: "?B \<in> set [?E, ?B]" by simp
  have repB: "snd (GetFreeSpace ?B) = None" by code_simp
  have elB: "MinFreeSpace ?B <s fst (GetFreeSpace ?B)" by code_simp
  have less: "fst (GetFreeSpace ?B) <s MaxInt64 - 1" by code_simp
  have one: "fst (fst (lfs draw_first [?E, ?B])) \<noteq> Some ?E"
    using lfs_unknown_free_space [of ?E ?B "[?E, ?B]" draw_first] err inf memB repB elB less
    by blast
  have two: "fst (fst (lfs keep_order [?E, ?B])) \<noteq> Some ?E"
    using lfs_unknown_free_space [of ?E ?B "[?E, ?B]" keep_order] err inf memB repB elB less
    by blast
  have memE: "?E \<in> set [?E, ?A]" by simp
  have elE: "MinFreeSpace ?E <s MaxInt64 - 1" by code_simp
  have others: "\<forall>w\<in>set [?E, ?A]. w = ?E \<or> \<not> MinFreeSpace w <s fst (GetFreeSpace w)
                            \<or> MaxInt64 - 1 <s fst (GetFreeSpace w)"
    by code_simp
  have three: "fst (lfs draw_first [?E, ?A]) = (Some ?E, None)"
    using lfs_unknown_free_space [of ?E ?B "[?E, ?A]" draw_first] memE err inf elE others
    by blast
  have memE1: "?E \<in> set [?E]" by simp
  have alone: "\<forall>w\<in>set [?E]. w = ?E \<or> \<not> MinFreeSpace w <s fst (GetFreeSpace w)
                            \<or> MaxInt64 - 1 <s fst (GetFreeSpace w)"
    by simp
  have four: "fst (lfs draw_first [?E]) = (Some ?E, None)"
    using lfs_unknown_free_space [of ?E ?B "[?E]" draw_first] memE1 err inf elE alone
    by blast
  from one two three four show ?thesis by blast
qed

subsection \<open>Least number of objects: when nothing is found\<close>

text \<open>
  C6, as amended. \<open>lno\<close> returns \<^verbatim>\<open>fs.ErrorObjectNotFound\<close> exactly when no candidate has a
  count below \<^verbatim>\<open>math.MaxInt64\<close>, which holds for the empty list; and when some candidate
  has a count other than \<^verbatim>\<open>math.MaxInt64\<close>, it returns a candidate and no error.
  The counterexample to the claim as stated is a list of one candidate whose count is
  \<^verbatim>\<open>math.MaxInt64\<close>: the test \<^verbatim>\<open>minNumObj > numObj\<close> fails against the initial
  \<^verbatim>\<open>minNumObj\<close>, nothing is recorded and the error is returned for a list that is not
  empty.
\<close>

theorem lno_not_found_iff:
  "(fst (lno rng upstreams) = (None, Some ErrorObjectNotFound)
      \<longleftrightarrow> (\<forall>u\<in>set upstreams. fst (GetNumObjects u) = MaxInt64)) \<and>
   ((\<exists>u\<in>set upstreams. fst (GetNumObjects u) \<noteq> MaxInt64)
      \<longrightarrow> (\<exists>w\<in>set upstreams. fst (lno rng upstreams) = (Some w, None)))"
proof -
  have none_iff: "fst (fst (lno rng upstreams)) = None
      \<longleftrightarrow> (\<forall>u\<in>set upstreams. fst (GetNumObjects u) = MaxInt64)"
    by (simp add: lno_scan scan_nothing set_Shuffle numObj_def)
  have first: "fst (lno rng upstreams) = (None, Some ErrorObjectNotFound)
      \<longleftrightarrow> fst (fst (lno rng upstreams)) = None"
    using lno_shape [of rng upstreams] by (auto split: option.splits)
  have second: "\<exists>w\<in>set upstreams. fst (lno rng upstreams) = (Some w, None)"
    if "\<exists>u\<in>set upstreams. fst (GetNumObjects u) \<noteq> MaxInt64"
  proof -
    from that none_iff obtain w where w: "fst (fst (lno rng upstreams)) = Some w" by auto
    from lno_first_least [OF w] have "w \<in> set (Shuffle rng upstreams)" by auto
    then have "w \<in> set upstreams" by (simp add: set_Shuffle)
    moreover have "fst (lno rng upstreams) = (Some w, None)"
      using lno_shape [of rng upstreams] w by simp
    ultimately show ?thesis by blast
  qed
  have iff: "fst (lno rng upstreams) = (None, Some ErrorObjectNotFound)
      \<longleftrightarrow> (\<forall>u\<in>set upstreams. fst (GetNumObjects u) = MaxInt64)"
    using none_iff first by simp
  show ?thesis
  proof (intro conjI impI)
    show "fst (lno rng upstreams) = (None, Some ErrorObjectNotFound)
      \<longleftrightarrow> (\<forall>u\<in>set upstreams. fst (GetNumObjects u) = MaxInt64)"
      by (rule iff)
  next
    assume "\<exists>u\<in>set upstreams. fst (GetNumObjects u) \<noteq> MaxInt64"
    then show "\<exists>w\<in>set upstreams. fst (lno rng upstreams) = (Some w, None)"
      by (rule second)
  qed
qed

theorem lno_not_found_counterexample:
  "fst (lno keep_order [reporting ''A'' 9223372036854775807 0 0]) =
     (None, Some ErrorObjectNotFound) \<and>
   [reporting ''A'' 9223372036854775807 0 0] \<noteq> []"
  by code_simp

theorem lno_not_found_iff_witness:
  "fst (lno draw_first [reporting ''A'' 9223372036854775807 0 0, reporting ''B'' 7 0 0]) \<noteq>
     (None, Some ErrorObjectNotFound) \<and>
   fst (lno draw_first [reporting ''A'' 9223372036854775807 0 0]) =
     (None, Some ErrorObjectNotFound) \<and>
   fst (lno draw_first []) = (None, Some ErrorObjectNotFound)"
proof -
  let ?A = "reporting ''A'' 9223372036854775807 0 0"
  let ?B = "reporting ''B'' 7 0 0"
  have "\<not> (\<forall>u\<in>set [?A, ?B]. fst (GetNumObjects u) = MaxInt64)" by code_simp
  then have one: "fst (lno draw_first [?A, ?B]) \<noteq> (None, Some ErrorObjectNotFound)"
    using lno_not_found_iff [of draw_first "[?A, ?B]"] by blast
  have "\<forall>u\<in>set [?A]. fst (GetNumObjects u) = MaxInt64" by code_simp
  then have two: "fst (lno draw_first [?A]) = (None, Some ErrorObjectNotFound)"
    using lno_not_found_iff [of draw_first "[?A]"] by blast
  have three: "fst (lno draw_first []) = (None, Some ErrorObjectNotFound)"
    using lno_not_found_iff [of draw_first "[]"] by simp
  from one two three show ?thesis by blast
qed

subsection \<open>Ties: the first candidate of the shuffled order wins\<close>

text \<open>
  C7. In each of the four reductions the candidate returned splits the shuffled list
  \<open>Shuffle rng xs\<close> in three: every (eligible) candidate before it has a strictly greater
  metric, and every (eligible) candidate after it has a metric that is not smaller. So it
  is the first of the shuffled order that attains the least metric, and a later
  candidate with an equal metric does not displace it. The last two parts are the single
  step behind this: a candidate whose metric is not strictly less than the running
  best leaves the running best and its owner as they were.
  For the least free space the candidates compared are the eligible ones, those above
  their own threshold. In the example \<open>A\<close> and \<open>B\<close> tie, the shuffled order is
  \<open>B, C, A\<close>, and \<open>B\<close> is returned.
\<close>

theorem first_least_wins:
  "(fst (fst (lno rng upstreams)) = Some u \<longrightarrow>
      (\<exists>ys zs. Shuffle rng upstreams = ys @ u # zs
         \<and> (\<forall>y\<in>set ys. numObj u <s numObj y) \<and> (\<forall>z\<in>set zs. numObj u \<le>s numObj z))) \<and>
   (fst (fst (lnoEntries rng entries)) = Some e \<longrightarrow>
      (\<exists>ys zs. Shuffle rng entries = ys @ e # zs
         \<and> (\<forall>y\<in>set ys. numObj (UpstreamFs e) <s numObj (UpstreamFs y))
         \<and> (\<forall>z\<in>set zs. numObj (UpstreamFs e) \<le>s numObj (UpstreamFs z)))) \<and>
   (fst (fst (lfs rng upstreams)) = Some u \<longrightarrow>
      (\<exists>ys zs. Shuffle rng upstreams = ys @ u # zs \<and> eligible u
         \<and> (\<forall>y\<in>set ys. eligible y \<longrightarrow> space u <s space y)
         \<and> (\<forall>z\<in>set zs. eligible z \<longrightarrow> space u \<le>s space z))) \<and>
   (fst (fst (lfsEntries rng entries)) = Some e \<longrightarrow>
      (\<exists>ys zs. Shuffle rng entries = ys @ e # zs \<and> eligible (UpstreamFs e)
         \<and> (\<forall>y\<in>set ys. eligible (UpstreamFs y) \<longrightarrow> space (UpstreamFs e) <s space (UpstreamFs y))
         \<and> (\<forall>z\<in>set zs. eligible (UpstreamFs z) \<longrightarrow> space (UpstreamFs e) \<le>s space (UpstreamFs z)))) \<and>
   (\<not> numObj u <s m \<longrightarrow>
      fst (lno_loop [u] (m, b, cs)) = m \<and> fst (snd (lno_loop [u] (m, b, cs))) = b) \<and>
   (\<not> space u <s m \<longrightarrow>
      fst (lfs_loop [u] (m, b, cs)) = m \<and> fst (snd (lfs_loop [u] (m, b, cs))) = b)"
proof (intro conjI impI)
  assume "\<not> numObj u <s m"
  then show "fst (lno_loop [u] (m, b, cs)) = m" and "fst (snd (lno_loop [u] (m, b, cs))) = b"
    by (auto simp: numObj_def Let_def split: prod.splits)
next
  assume "\<not> space u <s m"
  then show "fst (lfs_loop [u] (m, b, cs)) = m" and "fst (snd (lfs_loop [u] (m, b, cs))) = b"
    by (auto simp: space_def Let_def split: prod.splits)
next
  assume "fst (fst (lno rng upstreams)) = Some u"
  from lno_first_least [OF this]
  show "\<exists>ys zs. Shuffle rng upstreams = ys @ u # zs
         \<and> (\<forall>y\<in>set ys. numObj u <s numObj y) \<and> (\<forall>z\<in>set zs. numObj u \<le>s numObj z)"
    unfolding not_sless_iff by blast
next
  assume "fst (fst (lnoEntries rng entries)) = Some e"
  from lnoEntries_first_least [OF this]
  show "\<exists>ys zs. Shuffle rng entries = ys @ e # zs
         \<and> (\<forall>y\<in>set ys. numObj (UpstreamFs e) <s numObj (UpstreamFs y))
         \<and> (\<forall>z\<in>set zs. numObj (UpstreamFs e) \<le>s numObj (UpstreamFs z))"
    unfolding not_sless_iff by blast
next
  assume "fst (fst (lfs rng upstreams)) = Some u"
  from lfs_first_least [OF this]
  show "\<exists>ys zs. Shuffle rng upstreams = ys @ u # zs \<and> eligible u
         \<and> (\<forall>y\<in>set ys. eligible y \<longrightarrow> space u <s space y)
         \<and> (\<forall>z\<in>set zs. eligible z \<longrightarrow> space u \<le>s space z)"
    unfolding not_sless_iff by blast
next
  assume "fst (fst (lfsEntries rng entries)) = Some e"
  from lfsEntries_first_least [OF this]
  show "\<exists>ys zs. Shuffle rng entries = ys @ e # zs \<and> eligible (UpstreamFs e)
         \<and> (\<forall>y\<in>set ys. eligible (UpstreamFs y) \<longrightarrow> space (UpstreamFs e) <s space (UpstreamFs y))
         \<and> (\<forall>z\<in>set zs. eligible (UpstreamFs z) \<longrightarrow> space (UpstreamFs e) \<le>s space (UpstreamFs z))"
    unfolding not_sless_iff by blast
qed

theorem first_least_wins_witness:
  "fst (fst (lno draw_first
      [reporting ''A'' 5 100 0, reporting ''B'' 5 100 0, reporting ''C'' 9 200 0])) =
     Some (reporting ''B'' 5 100 0) \<and>
   fst (fst (lfs draw_first
      [reporting ''A'' 5 100 0, reporting ''B'' 5 100 0, reporting ''C'' 9 200 0])) =
     Some (reporting ''B'' 5 100 0) \<and>
   Shuffle draw_first [reporting ''A'' 5 100 0, reporting ''B'' 5 100 0, reporting ''C'' 9 200 0] =
     [reporting ''B'' 5 100 0, reporting ''C'' 9 200 0, reporting ''A'' 5 100 0] \<and>
   (\<exists>ys zs. Shuffle draw_first
        [reporting ''A'' 5 100 0, reporting ''B'' 5 100 0, reporting ''C'' 9 200 0] =
        ys @ reporting ''B'' 5 100 0 # zs
      \<and> (\<forall>y\<in>set ys. numObj (reporting ''B'' 5 100 0) <s numObj y)
      \<and> (\<forall>z\<in>set zs. numObj (reporting ''B'' 5 100 0) \<le>s numObj z)) \<and>
   (\<exists>ys zs. Shuffle draw_first
        [reporting ''A'' 5 100 0, reporting ''B'' 5 100 0, reporting ''C'' 9 200 0] =
        ys @ reporting ''B'' 5 100 0 # zs \<and> eligible (reporting ''B'' 5 100 0)
      \<and> (\<forall>y\<in>set ys. eligible y \<longrightarrow> space (reporting ''B'' 5 100 0) <s space y)
      \<and> (\<forall>z\<in>set zs. eligible z \<longrightarrow> space (reporting ''B'' 5 100 0) \<le>s space z)) \<and>
   fst (fst (lnoEntries draw_first
      [listed (reporting ''A'' 5 100 0), listed (reporting ''B'' 5 100 0),
       listed (reporting ''C'' 9 200 0)])) = Some (listed (reporting ''B'' 5 100 0)) \<and>
   fst (fst (lfsEntries draw_first
      [listed (reporting ''A'' 5 100 0), listed (reporting ''B'' 5 100 0),
       listed (reporting ''C'' 9 200 0)])) = Some (listed (reporting ''B'' 5 100 0)) \<and>
   (\<exists>ys zs. Shuffle draw_first
        [listed (reporting ''A'' 5 100 0), listed (reporting ''B'' 5 100 0),
         listed (reporting ''C'' 9 200 0)] = ys @ listed (reporting ''B'' 5 100 0) # zs
      \<and> (\<forall>y\<in>set ys. numObj (UpstreamFs (listed (reporting ''B'' 5 100 0))) <s
                          numObj (UpstreamFs y))
      \<and> (\<forall>z\<in>set zs. numObj (UpstreamFs (listed (reporting ''B'' 5 100 0))) \<le>s
                          numObj (UpstreamFs z)))"
proof -
  let ?A = "reporting ''A'' 5 100 0"
  let ?B = "reporting ''B'' 5 100 0"
  let ?C = "reporting ''C'' 9 200 0"
  note all = first_least_wins [of draw_first "[?A, ?B, ?C]" ?B
      "[listed ?A, listed ?B, listed ?C]" "listed ?B"]
  have a: "fst (fst (lno draw_first [?A, ?B, ?C])) = Some ?B" by code_simp
  have b: "fst (fst (lfs draw_first [?A, ?B, ?C])) = Some ?B" by code_simp
  have c: "Shuffle draw_first [?A, ?B, ?C] = [?B, ?C, ?A]" by code_simp
  have d: "fst (fst (lnoEntries draw_first [listed ?A, listed ?B, listed ?C])) =
     Some (listed ?B)" by code_simp
  have e: "fst (fst (lfsEntries draw_first [listed ?A, listed ?B, listed ?C])) =
     Some (listed ?B)" by code_simp
  from all a b c d e show ?thesis by blast
qed

subsection \<open>The winner is one of the candidates\<close>

text \<open>
  C10. The upstream or entry a reduction returns is an element of the list the reduction
  was given, and the shuffled list has the elements of that list, each as often as the
  list has it.
\<close>

theorem winner_is_candidate:
  "(fst (fst (lno rng upstreams)) = Some u \<longrightarrow> u \<in> set upstreams) \<and>
   (fst (fst (lnoEntries rng entries)) = Some e \<longrightarrow> e \<in> set entries) \<and>
   (fst (fst (lfs rng upstreams)) = Some u \<longrightarrow> u \<in> set upstreams) \<and>
   (fst (fst (lfsEntries rng entries)) = Some e \<longrightarrow> e \<in> set entries) \<and>
   mset (Shuffle rng upstreams) = mset upstreams \<and>
   mset (Shuffle rng entries) = mset entries"
proof (intro conjI impI)
  assume "fst (fst (lno rng upstreams)) = Some u"
  from lno_first_least [OF this] have "u \<in> set (Shuffle rng upstreams)" by auto
  then show "u \<in> set upstreams" by (simp add: set_Shuffle)
next
  assume "fst (fst (lnoEntries rng entries)) = Some e"
  from lnoEntries_first_least [OF this] have "e \<in> set (Shuffle rng entries)" by auto
  then show "e \<in> set entries" by (simp add: set_Shuffle)
next
  assume "fst (fst (lfs rng upstreams)) = Some u"
  from lfs_first_least [OF this] have "u \<in> set (Shuffle rng upstreams)" by auto
  then show "u \<in> set upstreams" by (simp add: set_Shuffle)
next
  assume "fst (fst (lfsEntries rng entries)) = Some e"
  from lfsEntries_first_least [OF this] have "e \<in> set (Shuffle rng entries)" by auto
  then show "e \<in> set entries" by (simp add: set_Shuffle)
qed (rule mset_Shuffle)+

theorem winner_is_candidate_witness:
  "fst (fst (lno draw_first [reporting ''A'' 5 100 0, reporting ''B'' 3 50 0])) =
     Some (reporting ''B'' 3 50 0) \<and>
   reporting ''B'' 3 50 0 \<in> set [reporting ''A'' 5 100 0, reporting ''B'' 3 50 0] \<and>
   fst (fst (lfs draw_first [reporting ''A'' 5 100 0, reporting ''B'' 3 50 0])) =
     Some (reporting ''B'' 3 50 0) \<and>
   fst (fst (lnoEntries draw_first
      [listed (reporting ''A'' 5 100 0), listed (reporting ''B'' 3 50 0)])) =
     Some (listed (reporting ''B'' 3 50 0)) \<and>
   fst (fst (lfsEntries draw_first
      [listed (reporting ''A'' 5 100 0), listed (reporting ''B'' 3 50 0)])) =
     Some (listed (reporting ''B'' 3 50 0)) \<and>
   listed (reporting ''B'' 3 50 0) \<in>
     set [listed (reporting ''A'' 5 100 0), listed (reporting ''B'' 3 50 0)] \<and>
   mset (Shuffle draw_first [reporting ''A'' 5 100 0, reporting ''B'' 3 50 0]) =
     mset [reporting ''A'' 5 100 0, reporting ''B'' 3 50 0]"
proof -
  let ?A = "reporting ''A'' 5 100 0"
  let ?B = "reporting ''B'' 3 50 0"
  note all = winner_is_candidate [of draw_first "[?A, ?B]" ?B "[listed ?A, listed ?B]" "listed ?B"]
  have a: "fst (fst (lno draw_first [?A, ?B])) = Some ?B" by code_simp
  have b: "fst (fst (lfs draw_first [?A, ?B])) = Some ?B" by code_simp
  have c: "fst (fst (lnoEntries draw_first [listed ?A, listed ?B])) = Some (listed ?B)"
    by code_simp
  have d: "fst (fst (lfsEntries draw_first [listed ?A, listed ?B])) = Some (listed ?B)"
    by code_simp
  from all a b c d show ?thesis by blast
qed

subsection \<open>Search on no candidates\<close>

text \<open>
  C9. \<^verbatim>\<open>Search\<close> and \<^verbatim>\<open>SearchEntries\<close> of both policies, called with an empty list, return
  \<^verbatim>\<open>fs.ErrorObjectNotFound\<close> and make no call: the embedded base policy is not asked, and
  neither \<^verbatim>\<open>GetNumObjects\<close> nor \<^verbatim>\<open>GetFreeSpace\<close> is. The example adds a base policy that
  would fail with another error: on the empty list that error does not appear, on a list
  of one candidate it does.
\<close>

theorem Search_empty_not_found:
  "EpLno_Search p rng [] path = ((None, Some ErrorObjectNotFound), []) \<and>
   EpLno_SearchEntries rng [] = ((None, Some ErrorObjectNotFound), []) \<and>
   EpLfs_Search p rng [] path = ((None, Some ErrorObjectNotFound), []) \<and>
   EpLfs_SearchEntries rng [] = ((None, Some ErrorObjectNotFound), [])"
  by (simp add: EpLno_Search_def EpLno_SearchEntries_def EpLfs_Search_def
      EpLfs_SearchEntries_def)

theorem Search_empty_not_found_witness:
  "EpLno_Search (failing (ErrorOther ''outage'')) draw_first [] ''dir'' =
     ((None, Some ErrorObjectNotFound), []) \<and>
   EpLno_SearchEntries draw_first [] = ((None, Some ErrorObjectNotFound), []) \<and>
   EpLfs_Search (failing (ErrorOther ''outage'')) draw_first [] ''dir'' =
     ((None, Some ErrorObjectNotFound), []) \<and>
   EpLfs_SearchEntries draw_first [] = ((None, Some ErrorObjectNotFound), []) \<and>
   EpLno_Search (failing (ErrorOther ''outage'')) draw_first [reporting ''A'' 5 100 0] ''dir'' =
     ((None, Some (ErrorOther ''outage'')), [Call_Filter])"
proof -
  have "EpLno_Search (failing (ErrorOther ''outage'')) draw_first [reporting ''A'' 5 100 0] ''dir'' =
     ((None, Some (ErrorOther ''outage'')), [Call_Filter])"
    by code_simp
  with Search_empty_not_found [of "failing (ErrorOther ''outage'')" draw_first "''dir''"]
  show ?thesis by blast
qed

subsection \<open>Errors of the base policy and of the reduction\<close>

lemma lno_error:
  "snd (fst (lno rng ups)) = Some err \<Longrightarrow> fst (lno rng ups) = (None, Some err)"
  using lno_shape [of rng ups] by (auto split: option.splits)

lemma lfs_error:
  "snd (fst (lfs rng ups)) = Some err \<Longrightarrow> fst (lfs rng ups) = (None, Some err)"
  using lfs_shape [of rng ups] by (auto split: option.splits)

lemma lfsEntries_error:
  "snd (fst (lfsEntries rng ents)) = Some err \<Longrightarrow> fst (lfsEntries rng ents) = (None, Some err)"
  using lfsEntries_shape [of rng ents] by (auto split: option.splits)

lemma filter_error:
  "EpAll_Action p upstreams path = (ups, Some err) \<Longrightarrow>
     fst (EpLno_Action p rng upstreams path) = ([], Some err) \<and>
     fst (EpLfs_Action p rng upstreams path) = ([], Some err)"
  "EpAll_Create p upstreams path = (ups, Some err) \<Longrightarrow>
     fst (EpLno_Create p rng upstreams path) = ([], Some err) \<and>
     fst (EpLfs_Create p rng upstreams path) = ([], Some err)"
  "EpAll_ActionEntries p entries = (ents, Some err) \<Longrightarrow>
     fst (EpLno_ActionEntries p rng entries) = ([], Some err) \<and>
     fst (EpLfs_ActionEntries p rng entries) = ([], Some err)"
  "EpAll_CreateEntries p entries = (ents, Some err) \<Longrightarrow>
     fst (EpLno_CreateEntries p rng entries) = ([], Some err) \<and>
     fst (EpLfs_CreateEntries p rng entries) = ([], Some err)"
  by (simp_all add: EpLno_Action_def EpLfs_Action_def EpLno_Create_def EpLfs_Create_def
      EpLno_ActionEntries_def EpLfs_ActionEntries_def EpLno_CreateEntries_def
      EpLfs_CreateEntries_def)

lemma reduction_error:
  "EpAll_Action p upstreams path = (ups, None) \<Longrightarrow> snd (fst (lno rng ups)) = Some err \<Longrightarrow>
     fst (EpLno_Action p rng upstreams path) = ([None], Some err)"
  "EpAll_Action p upstreams path = (ups, None) \<Longrightarrow> snd (fst (lfs rng ups)) = Some err \<Longrightarrow>
     fst (EpLfs_Action p rng upstreams path) = ([None], Some err)"
  "EpAll_Create p upstreams path = (ups, None) \<Longrightarrow> snd (fst (lno rng ups)) = Some err \<Longrightarrow>
     fst (EpLno_Create p rng upstreams path) = ([None], Some err)"
  "EpAll_Create p upstreams path = (ups, None) \<Longrightarrow> snd (fst (lfs rng ups)) = Some err \<Longrightarrow>
     fst (EpLfs_Create p rng upstreams path) = ([None], Some err)"
  "EpAll_ActionEntries p entries = (ents, None) \<Longrightarrow>
     snd (fst (lfsEntries rng ents)) = Some err \<Longrightarrow>
     fst (EpLfs_ActionEntries p rng entries) = ([None], Some err)"
  "EpAll_CreateEntries p entries = (ents, None) \<Longrightarrow>
     snd (fst (lfsEntries rng ents)) = Some err \<Longrightarrow>
     fst (EpLfs_CreateEntries p rng entries) = ([None], Some err)"
  by (auto simp: EpLno_Action_def EpLfs_Action_def EpLno_Create_def EpLfs_Create_def
      EpLfs_ActionEntries_def EpLfs_CreateEntries_def
      dest!: lno_error lfs_error lfsEntries_error split: prod.splits)

text \<open>
  C5, as amended. In \<^verbatim>\<open>Action\<close>, \<^verbatim>\<open>Create\<close>, \<^verbatim>\<open>ActionEntries\<close> and
  \<^verbatim>\<open>CreateEntries\<close> of both policies, an error of the embedded base policy is returned
  unchanged together with the \<^verbatim>\<open>nil\<close> slice. An error of the reduction is returned
  unchanged too, together with a slice of one element, which is \<^verbatim>\<open>nil\<close>: the methods
  end with \<^verbatim>\<open>return []*upstream.Fs{u}, err\<close>. \<open>lnoEntries\<close> returns no error at all.
  The counterexample to the claim as stated is \<^verbatim>\<open>EpLfs.Action\<close> on one candidate below its
  threshold: the error comes with a slice of length one.
\<close>

theorem hard_error_returned_unchanged:
  "(EpAll_Action p upstreams path = (ups, Some err) \<longrightarrow>
      fst (EpLno_Action p rng upstreams path) = ([], Some err) \<and>
      fst (EpLfs_Action p rng upstreams path) = ([], Some err)) \<and>
   (EpAll_Create p upstreams path = (ups, Some err) \<longrightarrow>
      fst (EpLno_Create p rng upstreams path) = ([], Some err) \<and>
      fst (EpLfs_Create p rng upstreams path) = ([], Some err)) \<and>
   (EpAll_ActionEntries p entries = (ents, Some err) \<longrightarrow>
      fst (EpLno_ActionEntries p rng entries) = ([], Some err) \<and>
      fst (EpLfs_ActionEntries p rng entries) = ([], Some err)) \<and>
   (EpAll_CreateEntries p entries = (ents, Some err) \<longrightarrow>
      fst (EpLno_CreateEntries p rng entries) = ([], Some err) \<and>
      fst (EpLfs_CreateEntries p rng entries) = ([], Some err)) \<and>
   (EpAll_Action p upstreams path = (ups, None) \<and> snd (fst (lno rng ups)) = Some err \<longrightarrow>
      fst (EpLno_Action p rng upstreams path) = ([None], Some err)) \<and>
   (EpAll_Action p upstreams path = (ups, None) \<and> snd (fst (lfs rng ups)) = Some err \<longrightarrow>
      fst (EpLfs_Action p rng upstreams path) = ([None], Some err)) \<and>
   (EpAll_Create p upstreams path = (ups, None) \<and> snd (fst (lno rng ups)) = Some err \<longrightarrow>
      fst (EpLno_Create p rng upstreams path) = ([None], Some err)) \<and>
   (EpAll_Create p upstreams path = (ups, None) \<and> snd (fst (lfs rng ups)) = Some err \<longrightarrow>
      fst (EpLfs_Create p rng upstreams path) = ([None], Some err)) \<and>
   (EpAll_ActionEntries p entries = (ents, None) \<and> snd (fst (lfsEntries rng ents)) = Some err \<longrightarrow>
      fst (EpLfs_ActionEntries p rng entries) = ([None], Some err)) \<and>
   (EpAll_CreateEntries p entries = (ents, None) \<and> snd (fst (lfsEntries rng ents)) = Some err \<longrightarrow>
      fst (EpLfs_CreateEntries p rng entries) = ([None], Some err)) \<and>
   snd (fst (lnoEntries rng ents)) = None"
proof -
  have "snd (fst (lnoEntries rng ents)) = None"
    using lnoEntries_shape [of rng ents] by (metis snd_conv)
  then show ?thesis
    by (intro conjI impI) (auto simp: filter_error reduction_error)
qed

theorem hard_error_counterexample:
  "fst (EpLfs_Action pass_through keep_order [reporting ''A'' 0 10 20] ''dir'') =
     ([None], Some errNoUpstreamsFound) \<and>
   [None :: upstream option] \<noteq> []"
  by code_simp

theorem hard_error_returned_unchanged_witness:
  "fst (EpLno_Action (failing (ErrorOther ''outage'')) keep_order [reporting ''A'' 0 10 20] ''dir'') =
     ([], Some (ErrorOther ''outage'')) \<and>
   fst (EpLfs_CreateEntries (failing (ErrorOther ''outage'')) keep_order
      [listed (reporting ''A'' 0 10 20)]) = ([], Some (ErrorOther ''outage'')) \<and>
   fst (EpLfs_Action pass_through keep_order [reporting ''A'' 0 10 20] ''dir'') =
     ([None], Some errNoUpstreamsFound) \<and>
   fst (EpLfs_ActionEntries pass_through keep_order [listed (reporting ''A'' 0 10 20)]) =
     ([None], Some errNoUpstreamsFound) \<and>
   fst (EpLno_Create pass_through keep_order [reporting ''A'' 9223372036854775807 10 20] ''dir'') =
     ([None], Some ErrorObjectNotFound)"
proof -
  let ?A = "reporting ''A'' 0 10 20"
  let ?M = "reporting ''A'' 9223372036854775807 10 20"
  let ?e = "ErrorOther ''outage''"
  have f1: "EpAll_Action (failing ?e) [?A] ''dir'' = ([], Some ?e)"
    by (simp add: failing_def)
  have f2: "EpAll_CreateEntries (failing ?e) [listed ?A] = ([], Some ?e)"
    by (simp add: failing_def)
  have p1: "EpAll_Action pass_through [?A] ''dir'' = ([?A], None)"
    by (simp add: pass_through_def)
  have p2: "EpAll_ActionEntries pass_through [listed ?A] = ([listed ?A], None)"
    by (simp add: pass_through_def)
  have p3: "EpAll_Create pass_through [?M] ''dir'' = ([?M], None)"
    by (simp add: pass_through_def)
  have r1: "snd (fst (lfs keep_order [?A])) = Some errNoUpstreamsFound" by code_simp
  have r2: "snd (fst (lfsEntries keep_order [listed ?A])) = Some errNoUpstreamsFound"
    by code_simp
  have r3: "snd (fst (lno keep_order [?M])) = Some ErrorObjectNotFound" by code_simp
  have a: "fst (EpLno_Action (failing ?e) keep_order [?A] ''dir'') = ([], Some ?e)"
    using hard_error_returned_unchanged [where p = "failing ?e" and upstreams = "[?A]"
        and path = "''dir''" and ups = "[]" and err = ?e and rng = keep_order] f1
    by blast
  have b: "fst (EpLfs_CreateEntries (failing ?e) keep_order [listed ?A]) = ([], Some ?e)"
    using hard_error_returned_unchanged [where p = "failing ?e" and entries = "[listed ?A]"
        and ents = "[]" and err = ?e and rng = keep_order] f2
    by blast
  have c: "fst (EpLfs_Action pass_through keep_order [?A] ''dir'') =
     ([None], Some errNoUpstreamsFound)"
    using hard_error_returned_unchanged [where p = pass_through and upstreams = "[?A]"
        and path = "''dir''" and ups = "[?A]" and err = errNoUpstreamsFound
        and rng = keep_order] p1 r1
    by blast
  have d: "fst (EpLfs_ActionEntries pass_through keep_order [listed ?A]) =
     ([None], Some errNoUpstreamsFound)"
    using hard_error_returned_unchanged [where p = pass_through and entries = "[listed ?A]"
        and ents = "[listed ?A]" and err = errNoUpstreamsFound and rng = keep_order] p2 r2
    by blast
  have e: "fst (EpLno_Create pass_through keep_order [?M] ''dir'') =
     ([None], Some ErrorObjectNotFound)"
    using hard_error_returned_unchanged [where p = pass_through and upstreams = "[?M]"
        and path = "''dir''" and ups = "[?M]" and err = ErrorObjectNotFound
        and rng = keep_order] p3 r3
    by blast
  from a b c d e show ?thesis by blast
qed

subsection \<open>A reduction that recorded no candidate\<close>

text \<open>
  C4. \<open>lnoEntries\<close> on the empty list, and on a list whose only candidate has the count
  \<^verbatim>\<open>math.MaxInt64\<close>, records no entry and returns \<^verbatim>\<open>nil\<close> with no error. Its three
  siblings test for \<^verbatim>\<open>nil\<close> and return their error on the empty list.
\<close>

theorem lnoEntries_nil_without_error:
  "fst (lnoEntries rng []) = (None, None) \<and>
   fst (lnoEntries keep_order [listed (reporting ''A'' 9223372036854775807 0 0)]) = (None, None) \<and>
   fst (lno rng []) = (None, Some ErrorObjectNotFound) \<and>
   fst (lfs rng []) = (None, Some errNoUpstreamsFound) \<and>
   fst (lfsEntries rng []) = (None, Some errNoUpstreamsFound)"
proof -
  have "fst (lnoEntries keep_order [listed (reporting ''A'' 9223372036854775807 0 0)]) =
      (None, None)"
    by code_simp
  then show ?thesis
    by (simp add: lnoEntries_def lno_def lfs_def lfsEntries_def Shuffle_def)
qed

subsection \<open>One winner on success\<close>

text \<open>
  Where the reduction tests for \<^verbatim>\<open>nil\<close>, a call that returns no error returns one
  candidate.
\<close>

lemma one_winner_on_success:
  "snd (fst (EpLno_Action p rng upstreams path)) = None \<Longrightarrow>
     \<exists>u. fst (fst (EpLno_Action p rng upstreams path)) = [Some u]"
  "snd (fst (EpLno_Create p rng upstreams path)) = None \<Longrightarrow>
     \<exists>u. fst (fst (EpLno_Create p rng upstreams path)) = [Some u]"
  "snd (fst (EpLfs_Action p rng upstreams path)) = None \<Longrightarrow>
     \<exists>u. fst (fst (EpLfs_Action p rng upstreams path)) = [Some u]"
  "snd (fst (EpLfs_Create p rng upstreams path)) = None \<Longrightarrow>
     \<exists>u. fst (fst (EpLfs_Create p rng upstreams path)) = [Some u]"
  "snd (fst (EpLfs_ActionEntries p rng entries)) = None \<Longrightarrow>
     \<exists>e. fst (fst (EpLfs_ActionEntries p rng entries)) = [Some e]"
  "snd (fst (EpLfs_CreateEntries p rng entries)) = None \<Longrightarrow>
     \<exists>e. fst (fst (EpLfs_CreateEntries p rng entries)) = [Some e]"
  "snd (fst (EpLno_Search p rng upstreams path)) = None \<Longrightarrow>
     \<exists>u. fst (fst (EpLno_Search p rng upstreams path)) = Some u"
  "snd (fst (EpLfs_Search p rng upstreams path)) = None \<Longrightarrow>
     \<exists>u. fst (fst (EpLfs_Search p rng upstreams path)) = Some u"
  "snd (fst (EpLfs_SearchEntries rng entries)) = None \<Longrightarrow>
     \<exists>e. fst (fst (EpLfs_SearchEntries rng entries)) = Some e"
  by (auto simp: EpLno_Action_def EpLno_Create_def EpLfs_Action_def EpLfs_Create_def
      EpLfs_ActionEntries_def EpLfs_CreateEntries_def EpLno_Search_def EpLfs_Search_def
      EpLfs_SearchEntries_def lno_def lfs_def lfsEntries_def
      split: prod.splits if_splits)

text \<open>
  C8. The entry-list methods of \<^verbatim>\<open>EpLno\<close> return no error and no entry when
  \<open>lnoEntries\<close> recorded none: \<^verbatim>\<open>SearchEntries\<close> returns \<^verbatim>\<open>nil\<close>, and
  \<^verbatim>\<open>ActionEntries\<close> and \<^verbatim>\<open>CreateEntries\<close> a slice whose one element is \<^verbatim>\<open>nil\<close>. The
  inputs are an entry whose upstream reports \<^verbatim>\<open>math.MaxInt64\<close> objects and, for a base
  policy that hands the empty list on, the empty list.
\<close>

theorem EpLno_entries_nil_winner:
  "fst (EpLno_SearchEntries keep_order [listed (reporting ''A'' 9223372036854775807 0 0)]) =
     (None, None) \<and>
   fst (EpLno_ActionEntries pass_through keep_order
      [listed (reporting ''A'' 9223372036854775807 0 0)]) = ([None], None) \<and>
   fst (EpLno_CreateEntries pass_through keep_order
      [listed (reporting ''A'' 9223372036854775807 0 0)]) = ([None], None) \<and>
   fst (EpLno_ActionEntries pass_through rng []) = ([None], None) \<and>
   fst (EpLno_CreateEntries pass_through rng []) = ([None], None)"
proof -
  have "fst (EpLno_SearchEntries keep_order [listed (reporting ''A'' 9223372036854775807 0 0)]) =
     (None, None)"
    by code_simp
  moreover have "fst (EpLno_ActionEntries pass_through keep_order
      [listed (reporting ''A'' 9223372036854775807 0 0)]) = ([None], None)"
    by code_simp
  moreover have "fst (EpLno_CreateEntries pass_through keep_order
      [listed (reporting ''A'' 9223372036854775807 0 0)]) = ([None], None)"
    by code_simp
  ultimately show ?thesis
    by (simp add: EpLno_ActionEntries_def EpLno_CreateEntries_def pass_through_def
        lnoEntries_def Shuffle_def)
qed

end
